theory Spec2Isabelle
  imports Main
begin

section \<open>Data model\<close>

text \<open>
  Rows of the relational store are records; a table is the list of its rows in storage
  order; a foreign key is the primary key (a \<open>nat\<close>) of the row it points to, and a nullable
  foreign key is an \<open>option\<close>.
\<close>

subsection \<open>Timestamps\<close>

text \<open>A \<^verbatim>\<open>datetime\<close> in UTC (settings: \<^verbatim>\<open>TIME_ZONE = 'UTC'\<close>, \<^verbatim>\<open>USE_TZ = True\<close>).\<close>

record datetime =
  dt_year :: nat
  dt_month :: nat
  dt_day :: nat
  dt_hour :: nat
  dt_minute :: nat
  dt_second :: nat
  dt_microsecond :: nat

definition dt_fields :: "datetime \<Rightarrow> nat list" where
  "dt_fields d =
     [dt_year d, dt_month d, dt_day d, dt_hour d, dt_minute d, dt_second d, dt_microsecond d]"

text \<open>Two datetimes compare field by field, most significant first.\<close>

fun lex_lt :: "nat list \<Rightarrow> nat list \<Rightarrow> bool" where
  "lex_lt (x # xs) (y # ys) = (x < y \<or> (x = y \<and> lex_lt xs ys))"
| "lex_lt [] (y # ys) = True"
| "lex_lt xs [] = False"

definition dt_lt :: "datetime \<Rightarrow> datetime \<Rightarrow> bool" where
  "dt_lt a b = lex_lt (dt_fields a) (dt_fields b)"

definition dt_le :: "datetime \<Rightarrow> datetime \<Rightarrow> bool" where
  "dt_le a b = (dt_fields a = dt_fields b \<or> dt_lt a b)"

text \<open>\<^verbatim>\<open>today.replace(hour=h, minute=m, second=s)\<close>: the other fields, microsecond included, stay.\<close>

definition replace_hms :: "datetime \<Rightarrow> nat \<Rightarrow> nat \<Rightarrow> nat \<Rightarrow> datetime" where
  "replace_hms d h m s = d\<lparr>dt_hour := h, dt_minute := m, dt_second := s\<rparr>"

subsection \<open>jenkins.models\<close>

record build =
  b_pk :: nat
  b_job :: nat
  b_build_id :: string
  b_number :: int
  b_phase :: string
  b_status :: string

definition FINALIZED :: string where
  "FINALIZED = ''FINALIZED''"

text \<open>\<^verbatim>\<open>Build.translate_build_phase\<close>.\<close>

definition translate_build_phase :: "string \<Rightarrow> string" where
  "translate_build_phase phase = (if phase = ''FINISHED'' then FINALIZED else phase)"

record artifact =
  art_pk :: nat
  art_build :: nat
  art_filename :: string
  art_url :: string

subsection \<open>projects.models\<close>

record dependency =
  dep_pk :: nat
  dep_name :: string
  dep_job :: "nat option"

record project_dependency =
  pd_pk :: nat
  pd_dependency :: nat
  pd_project :: nat
  pd_auto_track :: bool
  pd_current_build :: "nat option"

text \<open>
  \<^verbatim>\<open>ProjectBuild\<close>, with the fields of \<^verbatim>\<open>projects/models.py\<close>. \<open>pb_build_id\<close> is the key
  \<^verbatim>\<open>generate_projectbuild_id\<close> makes.
\<close>

record projectbuild =
  pb_pk :: nat
  pb_project :: nat
  pb_requested_by :: "nat option"
  pb_requested_at :: datetime
  pb_ended_at :: "datetime option"
  pb_status :: string
  pb_build_id :: string

text \<open>
  Modelled from the spec: \<^verbatim>\<open>ProjectBuildDependency\<close> is imported from \<^verbatim>\<open>projects.models\<close> by
  the views and the tests, but its class is not in \<^verbatim>\<open>projects/models.py\<close> as given. The
  fields are those of the spec's data model: the owning ProjectBuild, the Dependency, and
  the Build, null until the matching build arrives.
\<close>

record projectbuild_dependency =
  pbd_pk :: nat
  pbd_projectbuild :: nat
  pbd_dependency :: nat
  pbd_build :: "nat option"

subsection \<open>archives.models\<close>

text \<open>
  Modelled from the spec: \<^verbatim>\<open>archives/models.py\<close> is not among the source files. The fields
  are those the spec's data model lists for Archive and ArchiveArtifact and the tests of
  \<^verbatim>\<open>archives/tests/test_tasks.py\<close> read or write: the policy name and the default flag of
  an archive; the path, size, timestamp, build, artifact and optional
  ProjectBuildDependency of an archived artifact.
\<close>

record archive =
  a_pk :: nat
  a_policy :: string
  a_default :: bool

record archive_artifact =
  aa_pk :: nat
  aa_archive :: nat
  aa_build :: nat
  aa_artifact :: nat
  aa_archived_path :: string
  aa_archived_size :: "nat option"
  aa_archived_at :: "datetime option"
  aa_projectbuild_dependency :: "nat option"

subsection \<open>The store\<close>

record db =
  builds :: "build list"
  artifacts :: "artifact list"
  dependencies :: "dependency list"
  project_dependencies :: "project_dependency list"
  projectbuilds :: "projectbuild list"
  projectbuild_dependencies :: "projectbuild_dependency list"
  archive_artifacts :: "archive_artifact list"

definition empty_db :: db where
  "empty_db =
     \<lparr>builds = [], artifacts = [], dependencies = [], project_dependencies = [],
      projectbuilds = [], projectbuild_dependencies = [], archive_artifacts = []\<rparr>"

section \<open>Dependency.get_current_build\<close>

text \<open>
  \<^verbatim>\<open>order_by("-number")\<close>: the rows by descending build number. Rows with equal numbers keep
  their storage order here; the database leaves their order open.
\<close>

definition order_by_number_desc :: "build list \<Rightarrow> build list" where
  "order_by_number_desc bs = sort_key (\<lambda>b. - b_number b) bs"

text \<open>\<^verbatim>\<open>self.job.build_set.filter(phase="FINISHED")\<close>.\<close>

definition finished_builds :: "db \<Rightarrow> nat \<Rightarrow> build list" where
  "finished_builds s j = filter (\<lambda>b. b_job b = j \<and> b_phase b = ''FINISHED'') (builds s)"

definition get_current_build :: "db \<Rightarrow> dependency \<Rightarrow> build option" where
  "get_current_build s d =
     (case dep_job d of
        None \<Rightarrow> None
      | Some j \<Rightarrow>
          (if length (finished_builds s j) > 0
           then Some (hd (order_by_number_desc (finished_builds s j)))
           else None))"

section \<open>handle_new_build\<close>

text \<open>\<^verbatim>\<open>project_dependency.save()\<close>: the row with this primary key is replaced.\<close>

definition save_project_dependency :: "project_dependency \<Rightarrow> db \<Rightarrow> db" where
  "save_project_dependency pd s =
     s\<lparr>project_dependencies :=
         map (\<lambda>r. if pd_pk r = pd_pk pd then pd else r) (project_dependencies s)\<rparr>"

text \<open>\<^verbatim>\<open>instance.job.dependency_set.all()\<close>.\<close>

definition dependency_set :: "db \<Rightarrow> nat \<Rightarrow> dependency list" where
  "dependency_set s j = filter (\<lambda>d. dep_job d = Some j) (dependencies s)"

text \<open>\<^verbatim>\<open>dependency.projectdependency_set.filter(auto_track=True)\<close>.\<close>

definition auto_tracked_set :: "db \<Rightarrow> dependency \<Rightarrow> project_dependency list" where
  "auto_tracked_set s d =
     filter (\<lambda>pd. pd_dependency pd = dep_pk d \<and> pd_auto_track pd) (project_dependencies s)"

text \<open>
  The \<^verbatim>\<open>post_save\<close> handler of \<^verbatim>\<open>Build\<close>: the two nested loops, each row saved with the
  build as its \<^verbatim>\<open>current_build\<close>.
\<close>

definition track_dependency :: "build \<Rightarrow> dependency \<Rightarrow> db \<Rightarrow> db" where
  "track_dependency inst d s =
     fold (\<lambda>pd. save_project_dependency (pd\<lparr>pd_current_build := Some (b_pk inst)\<rparr>))
       (auto_tracked_set s d) s"

definition handle_new_build :: "db \<Rightarrow> build \<Rightarrow> db" where
  "handle_new_build s inst =
     (if dependency_set s (b_job inst) \<noteq> []
      then fold (track_dependency inst) (dependency_set s (b_job inst)) s
      else s)"

section \<open>generate_projectbuild_id\<close>

definition digit_char :: "nat \<Rightarrow> char" where
  "digit_char n = ''0123456789'' ! (n mod 10)"

text \<open>\<^verbatim>\<open>"%d" % n\<close> for a count \<open>n\<close>.\<close>

fun decimal :: "nat \<Rightarrow> string" where
  "decimal n = (if n < 10 then [digit_char n] else decimal (n div 10) @ [digit_char n])"

definition zero_pad :: "nat \<Rightarrow> string \<Rightarrow> string" where
  "zero_pad w s = replicate (w - length s) CHR ''0'' @ s"

text \<open>
  \<^verbatim>\<open>strftime\<close> with the directives the source uses: \<^verbatim>\<open>%Y\<close>, \<^verbatim>\<open>%m\<close>, \<^verbatim>\<open>%d\<close> (and \<^verbatim>\<open>%%\<close>); every
  other character is copied. The year is written with four digits, as it is for the years
  from 1900 on that the library accepts.
\<close>

fun strftime :: "datetime \<Rightarrow> string \<Rightarrow> string" where
  "strftime t (a # b # r) =
     (if a = CHR ''%'' then
        (if b = CHR ''Y'' then zero_pad 4 (decimal (dt_year t)) @ strftime t r
         else if b = CHR ''m'' then zero_pad 2 (decimal (dt_month t)) @ strftime t r
         else if b = CHR ''d'' then zero_pad 2 (decimal (dt_day t)) @ strftime t r
         else if b = CHR ''%'' then CHR ''%'' # strftime t r
         else a # strftime t (b # r))
      else a # strftime t (b # r))"
| "strftime t [a] = [a]"
| "strftime t [] = []"

text \<open>
  \<^verbatim>\<open>generate_projectbuild_id(projectbuild)\<close>, with \<^verbatim>\<open>timezone.now()\<close> as the argument \<open>today\<close>.
  The filter is \<^verbatim>\<open>requested_at__gt\<close> the start of the window, \<^verbatim>\<open>requested_at__lte\<close> its end, and
  the project; the format string \<^verbatim>\<open>"%%Y%%m%%d.%d" % today_count\<close> is \<^verbatim>\<open>%Y%m%d.\<close> followed
  by the count.
\<close>

definition today_count :: "db \<Rightarrow> nat \<Rightarrow> datetime \<Rightarrow> nat" where
  "today_count s project today =
     length (filter (\<lambda>pb. dt_lt (replace_hms today 0 0 0) (pb_requested_at pb)
                        \<and> dt_le (pb_requested_at pb) (replace_hms today 23 59 59)
                        \<and> pb_project pb = project)
               (projectbuilds s))"

definition generate_projectbuild_id :: "db \<Rightarrow> projectbuild \<Rightarrow> datetime \<Rightarrow> string" where
  "generate_projectbuild_id s projectbuild today =
     strftime today (''%Y%m%d.'' @ decimal (today_count s (pb_project projectbuild) today))"

text \<open>
  What the documentation of the key asks for, to compare with: the builds of the project
  requested on the calendar day of \<open>today\<close>.
\<close>

definition same_day :: "datetime \<Rightarrow> datetime \<Rightarrow> bool" where
  "same_day a b = (dt_year a = dt_year b \<and> dt_month a = dt_month b \<and> dt_day a = dt_day b)"

definition requested_on_day :: "db \<Rightarrow> nat \<Rightarrow> datetime \<Rightarrow> nat" where
  "requested_on_day s project today =
     length (filter (\<lambda>pb. same_day (pb_requested_at pb) today \<and> pb_project pb = project)
               (projectbuilds s))"

definition daily_key :: "db \<Rightarrow> nat \<Rightarrow> datetime \<Rightarrow> string" where
  "daily_key s project today =
     zero_pad 4 (decimal (dt_year today)) @ zero_pad 2 (decimal (dt_month today))
       @ zero_pad 2 (decimal (dt_day today)) @ ''.'' @ decimal (requested_on_day s project today)"

section \<open>Archive.add_build\<close>

text \<open>
  Modelled from the spec: the path policy of an archive (\<^verbatim>\<open>ComputePath\<close>, section 4.4) is
  not among the source files. It is a parameter: a function of the archive, the artifact,
  the build and the optional ProjectBuildDependency.
\<close>

type_synonym policy =
  "archive \<Rightarrow> artifact \<Rightarrow> build \<Rightarrow> projectbuild_dependency option \<Rightarrow> string"

text \<open>
  Modelled from the spec: the primary key the store gives a new row is not in the source
  files; here it is one more than the largest key of the table.
\<close>

definition next_pk :: "nat list \<Rightarrow> nat" where
  "next_pk ks = Suc (fold max ks 0)"

text \<open>
  Modelled from the spec: the creation of one ArchiveArtifact by \<^verbatim>\<open>Archive.add_build\<close>
  (\<^verbatim>\<open>archives/models.py\<close>, not among the source files). The entry is bound to the archive,
  the build and the artifact, its path is the policy's, its size and timestamp are null
  until the fetch, and its scope is the given ProjectBuildDependency or none.
\<close>

definition new_archive_artifact ::
  "policy \<Rightarrow> archive \<Rightarrow> build \<Rightarrow> artifact \<Rightarrow> projectbuild_dependency option \<Rightarrow> db
     \<Rightarrow> archive_artifact" where
  "new_archive_artifact policy archive b art scope s =
     \<lparr>aa_pk = next_pk (map aa_pk (archive_artifacts s)),
      aa_archive = a_pk archive,
      aa_build = b_pk b,
      aa_artifact = art_pk art,
      aa_archived_path = policy archive art b scope,
      aa_archived_size = None,
      aa_archived_at = None,
      aa_projectbuild_dependency = map_option pbd_pk scope\<rparr>"

text \<open>
  Modelled from the spec: the entries \<^verbatim>\<open>Archive.add_build\<close> creates for one artifact, one per
  scope in the order given, each inserted into the table as it is created.
\<close>

fun create_entries ::
  "policy \<Rightarrow> archive \<Rightarrow> build \<Rightarrow> artifact \<Rightarrow> projectbuild_dependency option list \<Rightarrow> db
     \<Rightarrow> db \<times> archive_artifact list" where
  "create_entries policy archive b art [] s = (s, [])"
| "create_entries policy archive b art (scope # scopes) s =
     (let e = new_archive_artifact policy archive b art scope s;
          (s', es) = create_entries policy archive b art scopes
                       (s\<lparr>archive_artifacts := archive_artifacts s @ [e]\<rparr>)
      in (s', e # es))"

text \<open>Modelled from the spec: the artifacts of a build, \<^verbatim>\<open>build.artifact_set\<close>.\<close>

definition build_artifacts :: "db \<Rightarrow> build \<Rightarrow> artifact list" where
  "build_artifacts s b = filter (\<lambda>a. art_build a = b_pk b) (artifacts s)"

text \<open>
  Modelled from the spec: the ProjectBuildDependency rows that reference the build (section
  4.5: zero, one or many).
\<close>

definition referencing_dependencies :: "db \<Rightarrow> build \<Rightarrow> projectbuild_dependency list" where
  "referencing_dependencies s b =
     filter (\<lambda>r. pbd_build r = Some (b_pk b)) (projectbuild_dependencies s)"

text \<open>
  Modelled from the spec: the loop of \<^verbatim>\<open>Archive.add_build\<close> over the artifacts of the build.
  For each artifact the build-scoped entry is created first (no ProjectBuildDependency),
  then one project-scoped entry for each referencing ProjectBuildDependency; the result
  pairs each artifact with its entries in creation order.
\<close>

fun add_artifacts ::
  "policy \<Rightarrow> archive \<Rightarrow> build \<Rightarrow> projectbuild_dependency list \<Rightarrow> artifact list \<Rightarrow> db
     \<Rightarrow> db \<times> (artifact \<times> archive_artifact list) list" where
  "add_artifacts policy archive b pbds [] s = (s, [])"
| "add_artifacts policy archive b pbds (art # arts) s =
     (let (s1, es) = create_entries policy archive b art (None # map Some pbds) s;
          (s2, items) = add_artifacts policy archive b pbds arts s1
      in (s2, (art, es) # items))"

text \<open>
  Modelled from the spec: \<^verbatim>\<open>Archive.add_build\<close> (section 4.5, \<^verbatim>\<open>AddBuild\<close>), whose code in
  \<^verbatim>\<open>archives/models.py\<close> is not among the source files. It returns the store with the new
  rows and the created entries keyed by artifact, an association list in creation order.
\<close>

definition add_build ::
  "policy \<Rightarrow> db \<Rightarrow> archive \<Rightarrow> build \<Rightarrow> db \<times> (artifact \<times> archive_artifact list) list" where
  "add_build policy s archive b =
     add_artifacts policy archive b (referencing_dependencies s b) (build_artifacts s b) s"

text \<open>What \<^verbatim>\<open>add_build\<close> promises of the entries of one artifact.\<close>

definition entries_of ::
  "policy \<Rightarrow> archive \<Rightarrow> build \<Rightarrow> projectbuild_dependency list
     \<Rightarrow> artifact \<times> archive_artifact list \<Rightarrow> bool" where
  "entries_of policy archive b pbds item =
     (case item of (art, es) \<Rightarrow>
        map aa_projectbuild_dependency es = None # map (\<lambda>r. Some (pbd_pk r)) pbds
        \<and> map aa_archived_path es = map (policy archive art b) (None # map Some pbds)
        \<and> list_all (\<lambda>e. aa_archive e = a_pk archive \<and> aa_build e = b_pk b
                         \<and> aa_artifact e = art_pk art
                         \<and> aa_archived_size e = None \<and> aa_archived_at e = None) es)"

section \<open>Example states\<close>

text \<open>One job with three builds, the newest stored with the translated phase.\<close>

definition ex_builds :: "build list" where
  "ex_builds =
     [\<lparr>b_pk = 1, b_job = 1, b_build_id = '''', b_number = 5, b_phase = ''FINISHED'', b_status = ''SUCCESS''\<rparr>,
      \<lparr>b_pk = 2, b_job = 1, b_build_id = '''', b_number = 7, b_phase = ''FINISHED'', b_status = ''SUCCESS''\<rparr>,
      \<lparr>b_pk = 3, b_job = 1, b_build_id = '''', b_number = 9, b_phase = translate_build_phase ''FINISHED'', b_status = ''SUCCESS''\<rparr>]"

definition ex_db :: db where
  "ex_db = empty_db\<lparr>builds := ex_builds\<rparr>"

definition ex_dep :: dependency where
  "ex_dep = \<lparr>dep_pk = 1, dep_name = ''d'', dep_job = Some 1\<rparr>"

text \<open>
  A dependency tracked by two projects, automatically by the first only, and a second
  dependency; a new build of the first dependency's job.
\<close>

definition ex_track_db :: db where
  "ex_track_db =
     empty_db
     \<lparr>builds := [\<lparr>b_pk = 10, b_job = 1, b_build_id = '''', b_number = 1, b_phase = FINALIZED,
                   b_status = ''SUCCESS''\<rparr>],
      dependencies := [\<lparr>dep_pk = 1, dep_name = ''d1'', dep_job = Some 1\<rparr>,
                       \<lparr>dep_pk = 2, dep_name = ''d2'', dep_job = Some 2\<rparr>],
      project_dependencies :=
        [\<lparr>pd_pk = 1, pd_dependency = 1, pd_project = 1, pd_auto_track = True,
           pd_current_build = Some 10\<rparr>,
         \<lparr>pd_pk = 2, pd_dependency = 1, pd_project = 2, pd_auto_track = False,
           pd_current_build = Some 10\<rparr>,
         \<lparr>pd_pk = 3, pd_dependency = 2, pd_project = 1, pd_auto_track = True,
           pd_current_build = None\<rparr>]\<rparr>"

definition ex_track_build :: build where
  "ex_track_build =
     \<lparr>b_pk = 11, b_job = 1, b_build_id = '''', b_number = 2, b_phase = FINALIZED, b_status = ''SUCCESS''\<rparr>"

definition ex_track_dep :: dependency where
  "ex_track_dep = \<lparr>dep_pk = 1, dep_name = ''d1'', dep_job = Some 1\<rparr>"

text \<open>
  A project with one build requested a quarter of a second after midnight, and a request
  at noon of the same day.
\<close>

definition ex_key_db :: db where
  "ex_key_db =
     empty_db
     \<lparr>projectbuilds :=
        [\<lparr>pb_pk = 1, pb_project = 1, pb_requested_by = None,
          pb_requested_at = \<lparr>dt_year = 2014, dt_month = 3, dt_day = 12, dt_hour = 0,
             dt_minute = 0, dt_second = 0, dt_microsecond = 250000\<rparr>,
          pb_ended_at = None, pb_status = ''INCOMPLETE'', pb_build_id = ''20140312.0''\<rparr>]\<rparr>"

definition ex_key_now :: datetime where
  "ex_key_now = \<lparr>dt_year = 2014, dt_month = 3, dt_day = 12, dt_hour = 12,
             dt_minute = 0, dt_second = 0, dt_microsecond = 500000\<rparr>"

definition ex_key_pb :: projectbuild where
  "ex_key_pb = \<lparr>pb_pk = 0, pb_project = 1, pb_requested_by = None,
          pb_requested_at = ex_key_now,
          pb_ended_at = None, pb_status = ''INCOMPLETE'', pb_build_id = ''''\<rparr>"

text \<open>
  An archive, a build with one artifact, and one ProjectBuildDependency that references
  the build; a policy with one directory per scope; the two entries \<open>add_build\<close> creates.
\<close>

definition ex_archive :: archive where
  "ex_archive = \<lparr>a_pk = 1, a_policy = ''p'', a_default = True\<rparr>"

definition ex_arch_build :: build where
  "ex_arch_build = \<lparr>b_pk = 1, b_job = 1, b_build_id = ''k'', b_number = 1,
     b_phase = FINALIZED, b_status = ''SUCCESS''\<rparr>"

definition ex_artifact :: artifact where
  "ex_artifact = \<lparr>art_pk = 1, art_build = 1, art_filename = ''t.txt'', art_url = ''u''\<rparr>"

definition ex_policy :: policy where
  "ex_policy archive art b scope =
     (case scope of None \<Rightarrow> ''b/'' @ art_filename art | Some r \<Rightarrow> ''p/'' @ art_filename art)"

definition ex_arch_db :: db where
  "ex_arch_db =
     empty_db
     \<lparr>builds := [ex_arch_build],
      artifacts := [ex_artifact],
      projectbuild_dependencies :=
        [\<lparr>pbd_pk = 1, pbd_projectbuild = 1, pbd_dependency = 1, pbd_build = Some 1\<rparr>]\<rparr>"

definition ex_item1 :: archive_artifact where
  "ex_item1 = \<lparr>aa_pk = 1, aa_archive = 1, aa_build = 1, aa_artifact = 1,
     aa_archived_path = ''b/t.txt'', aa_archived_size = None, aa_archived_at = None,
     aa_projectbuild_dependency = None\<rparr>"

definition ex_item2 :: archive_artifact where
  "ex_item2 = \<lparr>aa_pk = 2, aa_archive = 1, aa_build = 1, aa_artifact = 1,
     aa_archived_path = ''p/t.txt'', aa_archived_size = None, aa_archived_at = None,
     aa_projectbuild_dependency = Some 1\<rparr>"

definition ex_archived_db :: db where
  "ex_archived_db = ex_arch_db\<lparr>archive_artifacts := [ex_item1, ex_item2]\<rparr>"

section \<open>Properties of Dependency.get_current_build\<close>

lemma hd_sort_key_least:
  assumes "xs \<noteq> []"
  shows "hd (sort_key f xs) \<in> set xs \<and> (\<forall>y\<in>set xs. f (hd (sort_key f xs)) \<le> f y)"
proof -
  obtain z zs where ys: "sort_key f xs = z # zs"
    using assms by (cases "sort_key f xs") (auto dest: arg_cong [where f = length])
  have "set (z # zs) = set xs"
    using ys set_sort [of f xs] by simp
  moreover have "sorted (map f (z # zs))"
    using ys sorted_sort_key [of f xs] by simp
  ultimately show ?thesis
    using ys by auto
qed

lemma get_current_build_None_iff:
  "get_current_build s d = None \<longleftrightarrow>
     (dep_job d = None \<or> (\<forall>b\<in>set (builds s). Some (b_job b) = dep_job d \<longrightarrow> b_phase b \<noteq> ''FINISHED''))"
  by (auto simp: get_current_build_def finished_builds_def filter_empty_conv split: option.splits)

lemma get_current_build_Some:
  assumes "get_current_build s d = Some b"
  shows "b \<in> set (builds s) \<and> dep_job d = Some (b_job b) \<and> b_phase b = ''FINISHED''
         \<and> (\<forall>b'\<in>set (builds s). dep_job d = Some (b_job b') \<and> b_phase b' = ''FINISHED''
               \<longrightarrow> b_number b' \<le> b_number b)"
proof -
  from assms obtain j where j: "dep_job d = Some j"
    and ne: "finished_builds s j \<noteq> []"
    and b: "b = hd (order_by_number_desc (finished_builds s j))"
    by (auto simp: get_current_build_def split: option.splits if_splits)
  from hd_sort_key_least [OF ne, of "\<lambda>b. - b_number b"] b
  have mem: "b \<in> set (finished_builds s j)"
    and le: "\<forall>y\<in>set (finished_builds s j). b_number y \<le> b_number b"
    by (auto simp: order_by_number_desc_def)
  from mem have "b \<in> set (builds s)" "b_job b = j" "b_phase b = ''FINISHED''"
    by (auto simp: finished_builds_def)
  moreover have "\<forall>b'\<in>set (builds s). dep_job d = Some (b_job b') \<and> b_phase b' = ''FINISHED''
               \<longrightarrow> b_number b' \<le> b_number b"
    using le j by (auto simp: finished_builds_def)
  ultimately show ?thesis using j by simp
qed

lemma translate_build_phase_not_FINISHED: "translate_build_phase p \<noteq> ''FINISHED''"
  by (simp add: translate_build_phase_def FINALIZED_def)

text \<open>
  C10: \<open>get_current_build\<close> returns \<open>None\<close> when the dependency has no job or the job has
  no build whose phase is the string \<open>FINISHED\<close>; otherwise it returns a build of the job
  with phase \<open>FINISHED\<close> whose number is the largest among them. The phase that
  \<open>translate_build_phase\<close> stores is never \<open>FINISHED\<close> (a \<open>FINISHED\<close> notification is stored
  as \<open>FINALIZED\<close>), so a build stored with a translated phase is never returned.
\<close>

theorem get_current_build_spec:
  "(get_current_build s d = None \<longleftrightarrow>
      (dep_job d = None
       \<or> (\<forall>b\<in>set (builds s). Some (b_job b) = dep_job d \<longrightarrow> b_phase b \<noteq> ''FINISHED'')))
   \<and> (\<forall>b. get_current_build s d = Some b \<longrightarrow>
          b \<in> set (builds s) \<and> dep_job d = Some (b_job b) \<and> b_phase b = ''FINISHED''
          \<and> (\<forall>b'\<in>set (builds s). dep_job d = Some (b_job b') \<and> b_phase b' = ''FINISHED''
                \<longrightarrow> b_number b' \<le> b_number b))
   \<and> translate_build_phase ''FINISHED'' = ''FINALIZED''
   \<and> (\<forall>(b::build) p. b_phase b = translate_build_phase p \<longrightarrow> get_current_build s d \<noteq> Some b)"
proof (intro conjI allI impI)
  show "get_current_build s d = None \<longleftrightarrow>
      (dep_job d = None
       \<or> (\<forall>b\<in>set (builds s). Some (b_job b) = dep_job d \<longrightarrow> b_phase b \<noteq> ''FINISHED''))"
    by (rule get_current_build_None_iff)
next
  show "translate_build_phase ''FINISHED'' = ''FINALIZED''"
    by (simp add: translate_build_phase_def FINALIZED_def)
next
  fix b :: build and p assume "b_phase b = translate_build_phase p"
  then have "b_phase b \<noteq> ''FINISHED''"
    using translate_build_phase_not_FINISHED [of p] by simp
  then show "get_current_build s d \<noteq> Some b"
    using get_current_build_Some [of s d b] by blast
qed (use get_current_build_Some in blast)+

theorem get_current_build_spec_witness:
  "get_current_build ex_db ex_dep = Some (ex_builds ! 1)
   \<and> b_phase (ex_builds ! 1) = ''FINISHED''
   \<and> b_number (ex_builds ! 0) \<le> b_number (ex_builds ! 1)
   \<and> get_current_build ex_db ex_dep \<noteq> Some (ex_builds ! 2)"
proof -
  have e: "get_current_build ex_db ex_dep = Some (ex_builds ! 1)"
    by (simp add: get_current_build_def finished_builds_def order_by_number_desc_def ex_db_def
        empty_db_def ex_dep_def
        ex_builds_def translate_build_phase_def FINALIZED_def)
  show ?thesis
    using e get_current_build_spec [of ex_db ex_dep]
    by (simp add: ex_builds_def)
qed


section \<open>Properties of handle_new_build\<close>

lemma save_project_dependency_map:
  assumes "distinct (map pd_pk T)" and "pd \<in> set T"
    and "project_dependencies s = map (\<lambda>r. if r \<in> A then r\<lparr>pd_current_build := Some v\<rparr> else r) T"
  shows "project_dependencies (save_project_dependency (pd\<lparr>pd_current_build := Some v\<rparr>) s)
         = map (\<lambda>r. if r \<in> insert pd A then r\<lparr>pd_current_build := Some v\<rparr> else r) T"
proof -
  have eq: "\<And>r. r \<in> set T \<Longrightarrow> pd_pk r = pd_pk pd \<longleftrightarrow> r = pd"
    using assms(1,2) by (auto simp: distinct_map inj_on_def)
  show ?thesis
    unfolding save_project_dependency_def assms(3)
    by (auto simp: eq)
qed

lemma save_project_dependency_others [simp]:
  "dependencies (save_project_dependency pd s) = dependencies s"
  by (simp add: save_project_dependency_def)

lemma fold_save_map:
  assumes "distinct (map pd_pk T)"
  shows "set rs \<subseteq> set T \<Longrightarrow>
     project_dependencies s = map (\<lambda>r. if r \<in> A then r\<lparr>pd_current_build := Some v\<rparr> else r) T \<Longrightarrow>
     project_dependencies
       (fold (\<lambda>pd. save_project_dependency (pd\<lparr>pd_current_build := Some v\<rparr>)) rs s)
     = map (\<lambda>r. if r \<in> A \<union> set rs then r\<lparr>pd_current_build := Some v\<rparr> else r) T"
proof (induction rs arbitrary: s A)
  case Nil
  then show ?case by simp
next
  case (Cons pd rs)
  from Cons.prems have pd: "pd \<in> set T" and rs: "set rs \<subseteq> set T" by auto
  have "project_dependencies (save_project_dependency (pd\<lparr>pd_current_build := Some v\<rparr>) s)
         = map (\<lambda>r. if r \<in> insert pd A then r\<lparr>pd_current_build := Some v\<rparr> else r) T"
    by (rule save_project_dependency_map [OF assms pd Cons.prems(2)])
  from Cons.IH [OF rs this] show ?case by simp
qed

lemma fold_save_others [simp]:
  "dependencies (fold (\<lambda>pd. save_project_dependency (f pd)) rs s) = dependencies s"
  by (induction rs arbitrary: s) simp_all

lemma track_dependency_rows:
  assumes "distinct (map pd_pk (project_dependencies s))"
  shows "project_dependencies (track_dependency inst d s)
     = map (\<lambda>r. if pd_dependency r = dep_pk d \<and> pd_auto_track r
                 then r\<lparr>pd_current_build := Some (b_pk inst)\<rparr> else r) (project_dependencies s)"
proof -
  have "project_dependencies (track_dependency inst d s)
     = map (\<lambda>r. if r \<in> {} \<union> set (auto_tracked_set s d) then r\<lparr>pd_current_build := Some (b_pk inst)\<rparr> else r)
         (project_dependencies s)"
    unfolding track_dependency_def
    by (rule fold_save_map [OF assms]) (auto simp: auto_tracked_set_def)
  also have "\<dots> = map (\<lambda>r. if pd_dependency r = dep_pk d \<and> pd_auto_track r
                 then r\<lparr>pd_current_build := Some (b_pk inst)\<rparr> else r) (project_dependencies s)"
    by (auto simp: auto_tracked_set_def)
  finally show ?thesis .
qed

lemma track_dependency_others [simp]:
  "dependencies (track_dependency inst d s) = dependencies s"
  by (simp add: track_dependency_def)

lemma fold_track_dependency_rows:
  "distinct (map pd_pk (project_dependencies s)) \<Longrightarrow>
   project_dependencies (fold (track_dependency inst) ds s)
     = map (\<lambda>r. if pd_auto_track r \<and> pd_dependency r \<in> dep_pk ` set ds
                 then r\<lparr>pd_current_build := Some (b_pk inst)\<rparr> else r) (project_dependencies s)"
proof (induction ds arbitrary: s)
  case Nil
  then show ?case by simp
next
  case (Cons d ds)
  let ?s1 = "track_dependency inst d s"
  have rows1: "project_dependencies ?s1
     = map (\<lambda>r. if pd_dependency r = dep_pk d \<and> pd_auto_track r
                 then r\<lparr>pd_current_build := Some (b_pk inst)\<rparr> else r) (project_dependencies s)"
    by (rule track_dependency_rows [OF Cons.prems])
  have "map pd_pk (project_dependencies ?s1) = map pd_pk (project_dependencies s)"
    unfolding rows1 by (simp add: comp_def if_distrib cong: if_cong)
  with Cons.prems have "distinct (map pd_pk (project_dependencies ?s1))" by simp
  from Cons.IH [OF this] show ?case
    unfolding rows1 by (auto simp: comp_def)
qed

lemma handle_new_build_rows:
  assumes "distinct (map pd_pk (project_dependencies s))"
  shows "project_dependencies (handle_new_build s inst)
     = map (\<lambda>r. if pd_auto_track r \<and> pd_dependency r \<in> dep_pk ` set (dependency_set s (b_job inst))
                 then r\<lparr>pd_current_build := Some (b_pk inst)\<rparr> else r) (project_dependencies s)"
proof (cases "dependency_set s (b_job inst) = []")
  case True
  then show ?thesis by (simp add: handle_new_build_def map_idI)
next
  case False
  then show ?thesis
    by (simp add: handle_new_build_def fold_track_dependency_rows [OF assms])
qed

text \<open>
  C5: for a dependency \<open>D\<close> bound to the job of the saved build, with primary keys of the
  project dependencies unique, every project dependency that references \<open>D\<close> and tracks
  automatically has the build as its current build afterwards, and every one that
  references \<open>D\<close> and does not track automatically is the row it was. The phase of the
  build plays no part, so this holds for a \<open>FINALIZED\<close> build in particular.
\<close>

theorem handle_new_build_auto_track:
  assumes "distinct (map pd_pk (project_dependencies s))"
    and "D \<in> set (dependencies s)" and "dep_job D = Some (b_job inst)"
  shows "list_all2
           (\<lambda>r r'. pd_dependency r = dep_pk D \<longrightarrow>
              (if pd_auto_track r then r' = r\<lparr>pd_current_build := Some (b_pk inst)\<rparr> else r' = r))
           (project_dependencies s) (project_dependencies (handle_new_build s inst))"
proof -
  have D: "dep_pk D \<in> dep_pk ` set (dependency_set s (b_job inst))"
    using assms(2,3) by (auto simp: dependency_set_def)
  show ?thesis
    unfolding handle_new_build_rows [OF assms(1)] list_all2_map2
    by (rule list_all2_refl) (use D in auto)
qed

theorem handle_new_build_auto_track_witness:
  "distinct (map pd_pk (project_dependencies ex_track_db))
   \<and> ex_track_dep \<in> set (dependencies ex_track_db)
   \<and> dep_job ex_track_dep = Some (b_job ex_track_build)
   \<and> b_phase ex_track_build = FINALIZED
   \<and> list_all2
         (\<lambda>r r'. pd_dependency r = dep_pk ex_track_dep \<longrightarrow>
            (if pd_auto_track r then r' = r\<lparr>pd_current_build := Some (b_pk ex_track_build)\<rparr>
             else r' = r))
         (project_dependencies ex_track_db)
         (project_dependencies (handle_new_build ex_track_db ex_track_build))"
proof -
  have h1: "distinct (map pd_pk (project_dependencies ex_track_db))"
    by (simp add: ex_track_db_def empty_db_def)
  have h2: "ex_track_dep \<in> set (dependencies ex_track_db)"
    by (simp add: ex_track_db_def empty_db_def ex_track_dep_def)
  have h3: "dep_job ex_track_dep = Some (b_job ex_track_build)"
    by (simp add: ex_track_dep_def ex_track_build_def)
  have h4: "b_phase ex_track_build = FINALIZED"
    by (simp add: ex_track_build_def)
  show ?thesis
    using h1 h2 h3 h4 handle_new_build_auto_track [OF h1 h2 h3] by simp
qed


section \<open>Properties of Archive.add_build\<close>

lemma create_entries_spec:
  "create_entries policy archive b art scopes s = (s', es) \<Longrightarrow>
     archive_artifacts s' = archive_artifacts s @ es
     \<and> map aa_projectbuild_dependency es = map (map_option pbd_pk) scopes
     \<and> map aa_archived_path es = map (policy archive art b) scopes
     \<and> list_all (\<lambda>e. aa_archive e = a_pk archive \<and> aa_build e = b_pk b
                      \<and> aa_artifact e = art_pk art
                      \<and> aa_archived_size e = None \<and> aa_archived_at e = None) es"
proof (induction scopes arbitrary: s s' es)
  case Nil
  then show ?case by simp
next
  case (Cons scope scopes)
  let ?e = "new_archive_artifact policy archive b art scope s"
  let ?s1 = "s\<lparr>archive_artifacts := archive_artifacts s @ [?e]\<rparr>"
  obtain s2 es2 where rest: "create_entries policy archive b art scopes ?s1 = (s2, es2)"
    by (cases "create_entries policy archive b art scopes ?s1")
  from Cons.prems rest have s': "s' = s2" and es: "es = ?e # es2"
    by (simp_all add: Let_def)
  from Cons.IH [OF rest] show ?case
    unfolding s' es by (simp add: new_archive_artifact_def)
qed

lemma add_artifacts_spec:
  "add_artifacts policy archive b pbds arts s = (s', items) \<Longrightarrow>
     map fst items = arts
     \<and> archive_artifacts s' = archive_artifacts s @ concat (map snd items)
     \<and> list_all (entries_of policy archive b pbds) items"
proof (induction arts arbitrary: s s' items)
  case Nil
  then show ?case by simp
next
  case (Cons art arts)
  obtain s1 es where first: "create_entries policy archive b art (None # map Some pbds) s = (s1, es)"
    by (cases "create_entries policy archive b art (None # map Some pbds) s")
  obtain s2 rest where rest: "add_artifacts policy archive b pbds arts s1 = (s2, rest)"
    by (cases "add_artifacts policy archive b pbds arts s1")
  from Cons.prems first rest have s': "s' = s2" and items: "items = (art, es) # rest"
    by (simp_all del: create_entries.simps)
  from create_entries_spec [OF first] have e: "entries_of policy archive b pbds (art, es)"
    and a: "archive_artifacts s1 = archive_artifacts s @ es"
    by (simp_all add: entries_of_def comp_def)
  from Cons.IH [OF rest] a e show ?case
    unfolding s' items by simp
qed

lemma count_scopes:
  assumes "list_all (entries_of policy archive b pbds) items"
  shows "length (filter (\<lambda>e. aa_projectbuild_dependency e = None) (concat (map snd items)))
           = length items
         \<and> length (filter (\<lambda>e. aa_projectbuild_dependency e \<noteq> None) (concat (map snd items)))
           = length items * length pbds"
  using assms
proof (induction items)
  case Nil
  then show ?case by simp
next
  case (Cons item items)
  obtain art es where item: "item = (art, es)" by (cases item)
  from Cons.prems item
  have m: "map aa_projectbuild_dependency es = None # map (\<lambda>r. Some (pbd_pk r)) pbds"
    by (simp add: entries_of_def)
  have f: "\<And>P. length (filter (\<lambda>e. P (aa_projectbuild_dependency e)) es)
             = length (filter P (map aa_projectbuild_dependency es))"
    by (simp add: filter_map comp_def)
  have n: "length (filter (\<lambda>e. aa_projectbuild_dependency e = None) es) = 1"
    using f [of "\<lambda>x. x = None"] unfolding m by (simp add: filter_map comp_def)
  have p: "length (filter (\<lambda>e. aa_projectbuild_dependency e \<noteq> None) es) = length pbds"
    using f [of "\<lambda>x. x \<noteq> None"] unfolding m by (simp add: filter_map comp_def)
  from Cons.IH Cons.prems n p show ?case
    unfolding item by simp
qed

lemma fold_max_ge: "(m::nat) \<le> fold max ks m \<and> (\<forall>k\<in>set ks. k \<le> fold max ks m)"
proof (induction ks arbitrary: m)
  case Nil
  show ?case by simp
next
  case (Cons k ks)
  from Cons.IH [of "max k m"] show ?case by auto
qed

lemma next_pk_fresh: "k \<in> set ks \<Longrightarrow> k < next_pk ks"
  using fold_max_ge [of 0 ks] by (auto simp: next_pk_def)

lemma create_entries_fresh:
  "create_entries policy archive b art scopes s = (s', es) \<Longrightarrow>
     distinct (map aa_pk (archive_artifacts s)) \<Longrightarrow>
     distinct (map aa_pk (archive_artifacts s'))"
proof (induction scopes arbitrary: s s' es)
  case Nil
  then show ?case by simp
next
  case (Cons scope scopes)
  let ?e = "new_archive_artifact policy archive b art scope s"
  let ?s1 = "s\<lparr>archive_artifacts := archive_artifacts s @ [?e]\<rparr>"
  obtain s2 es2 where rest: "create_entries policy archive b art scopes ?s1 = (s2, es2)"
    by (cases "create_entries policy archive b art scopes ?s1")
  from Cons.prems(1) rest have s': "s' = s2"
    by (simp add: Let_def)
  have "aa_pk ?e \<notin> set (map aa_pk (archive_artifacts s))"
    using next_pk_fresh [of "aa_pk ?e" "map aa_pk (archive_artifacts s)"]
    by (auto simp: new_archive_artifact_def)
  with Cons.prems(2) have "distinct (map aa_pk (archive_artifacts ?s1))"
    by simp
  from Cons.IH [OF rest this] show ?case
    unfolding s' .
qed

lemma add_artifacts_fresh:
  "add_artifacts policy archive b pbds arts s = (s', items) \<Longrightarrow>
     distinct (map aa_pk (archive_artifacts s)) \<Longrightarrow>
     distinct (map aa_pk (archive_artifacts s'))"
proof (induction arts arbitrary: s s' items)
  case Nil
  then show ?case by simp
next
  case (Cons art arts)
  obtain s1 es where first: "create_entries policy archive b art (None # map Some pbds) s = (s1, es)"
    by (cases "create_entries policy archive b art (None # map Some pbds) s")
  obtain s2 rest where rest: "add_artifacts policy archive b pbds arts s1 = (s2, rest)"
    by (cases "add_artifacts policy archive b pbds arts s1")
  from Cons.prems(1) first rest have s': "s' = s2"
    by (simp del: create_entries.simps)
  from Cons.IH [OF rest create_entries_fresh [OF first Cons.prems(2)]] show ?case
    unfolding s' .
qed

text \<open>
  C4: for a build with \<open>N\<close> artifacts and \<open>M\<close> ProjectBuildDependency rows that reference it,
  \<open>add_build\<close> returns one key per artifact, in order; the entries of each artifact are the
  build-scoped entry (no ProjectBuildDependency) followed by one project-scoped entry per
  referencing row, each bound to the archive, the build and the artifact with the policy's
  path; the new rows of the table are exactly the returned entries in creation order; \<open>N\<close>
  of them are build-scoped and \<open>N * M\<close> project-scoped (none when \<open>M = 0\<close>); and the new rows
  have keys of their own when the keys of the table were distinct.
\<close>

theorem add_build_entries:
  assumes "add_build policy s archive b = (s', items)"
  shows "map fst items = build_artifacts s b
     \<and> list_all (entries_of policy archive b (referencing_dependencies s b)) items
     \<and> archive_artifacts s' = archive_artifacts s @ concat (map snd items)
     \<and> length (filter (\<lambda>e. aa_projectbuild_dependency e = None) (concat (map snd items)))
         = length (build_artifacts s b)
     \<and> length (filter (\<lambda>e. aa_projectbuild_dependency e \<noteq> None) (concat (map snd items)))
         = length (build_artifacts s b) * length (referencing_dependencies s b)
     \<and> (distinct (map aa_pk (archive_artifacts s))
          \<longrightarrow> distinct (map aa_pk (archive_artifacts s')))"
proof -
  from assms have a: "add_artifacts policy archive b (referencing_dependencies s b)
      (build_artifacts s b) s = (s', items)"
    by (simp add: add_build_def)
  note spec = add_artifacts_spec [OF a]
  from spec have len: "length items = length (build_artifacts s b)"
    by (metis length_map)
  from spec count_scopes [of policy archive b "referencing_dependencies s b" items] len
    add_artifacts_fresh [OF a]
  show ?thesis by simp
qed

theorem add_build_entries_witness:
  "add_build ex_policy ex_arch_db ex_archive ex_arch_build
     = (ex_archived_db, [(ex_artifact, [ex_item1, ex_item2])])
   \<and> build_artifacts ex_arch_db ex_arch_build = [ex_artifact]
   \<and> length (referencing_dependencies ex_arch_db ex_arch_build) = 1
   \<and> length (filter (\<lambda>e. aa_projectbuild_dependency e = None)
               (concat (map snd [(ex_artifact, [ex_item1, ex_item2])]))) = 1
   \<and> length (filter (\<lambda>e. aa_projectbuild_dependency e \<noteq> None)
               (concat (map snd [(ex_artifact, [ex_item1, ex_item2])]))) = 1 * 1
   \<and> distinct (map aa_pk (archive_artifacts ex_archived_db))"
proof -
  have e: "add_build ex_policy ex_arch_db ex_archive ex_arch_build
     = (ex_archived_db, [(ex_artifact, [ex_item1, ex_item2])])"
    by (simp add: add_build_def build_artifacts_def referencing_dependencies_def Let_def
        new_archive_artifact_def next_pk_def ex_policy_def ex_arch_db_def ex_archived_db_def
        ex_archive_def ex_arch_build_def ex_artifact_def ex_item1_def ex_item2_def empty_db_def)
  have a: "build_artifacts ex_arch_db ex_arch_build = [ex_artifact]"
    by (simp add: build_artifacts_def ex_arch_db_def ex_arch_build_def ex_artifact_def
        empty_db_def)
  have r: "length (referencing_dependencies ex_arch_db ex_arch_build) = 1"
    by (simp add: referencing_dependencies_def ex_arch_db_def ex_arch_build_def empty_db_def)
  have d: "distinct (map aa_pk (archive_artifacts ex_arch_db))"
    by (simp add: ex_arch_db_def empty_db_def)
  note t = add_build_entries [OF e]
  from t d have dd: "distinct (map aa_pk (archive_artifacts ex_archived_db))"
    by blast
  from t a have n: "length (filter (\<lambda>e. aa_projectbuild_dependency e = None)
               (concat (map snd [(ex_artifact, [ex_item1, ex_item2])]))) = 1"
    by simp
  from t a r have m: "length (filter (\<lambda>e. aa_projectbuild_dependency e \<noteq> None)
               (concat (map snd [(ex_artifact, [ex_item1, ex_item2])]))) = 1 * 1"
    by simp
  from e a r n m dd show ?thesis
    by blast
qed

section \<open>Properties of generate_projectbuild_id\<close>

text \<open>
  Every build the filter counts was requested on the calendar day of \<open>today\<close>, so the count
  of the filter never exceeds the count of the day.
\<close>

lemma window_same_day:
  assumes "dt_lt (replace_hms today 0 0 0) r" and "dt_le r (replace_hms today 23 59 59)"
  shows "same_day r today"
  using assms
  by (auto simp: dt_lt_def dt_le_def dt_fields_def replace_hms_def same_day_def)

lemma today_count_le_requested_on_day:
  "today_count s project today \<le> requested_on_day s project today"
proof -
  have "length (filter (\<lambda>pb. dt_lt (replace_hms today 0 0 0) (pb_requested_at pb)
                        \<and> dt_le (pb_requested_at pb) (replace_hms today 23 59 59)
                        \<and> pb_project pb = project) xs)
        \<le> length (filter (\<lambda>pb. same_day (pb_requested_at pb) today \<and> pb_project pb = project) xs)"
    for xs
    by (induction xs) (auto simp: window_same_day)
  then show ?thesis
    by (simp add: today_count_def requested_on_day_def)
qed

lemma decimal_small [simp]: "n < 10 \<Longrightarrow> decimal n = [digit_char n]"
  by simp

text \<open>
  C3: the key is the day of \<open>today\<close> as \<open>YYYYMMDD\<close>, a dot, and the number of builds the
  filter counts. The window of the filter starts at midnight plus the microseconds of
  \<open>today\<close>, exclusive, so a build of the same project requested earlier on that day before
  that instant is not counted: here the second request of the day is given the key of the
  first.
\<close>

theorem generate_projectbuild_id_skips_early_build:
  "generate_projectbuild_id ex_key_db ex_key_pb ex_key_now = ''20140312.0''
   \<and> requested_on_day ex_key_db (pb_project ex_key_pb) ex_key_now = 1
   \<and> daily_key ex_key_db (pb_project ex_key_pb) ex_key_now = ''20140312.1''
   \<and> generate_projectbuild_id ex_key_db ex_key_pb ex_key_now \<in> pb_build_id ` set (projectbuilds ex_key_db)"
  by (simp add: generate_projectbuild_id_def today_count_def daily_key_def requested_on_day_def
      same_day_def ex_key_db_def empty_db_def ex_key_pb_def ex_key_now_def replace_hms_def dt_lt_def dt_le_def
      dt_fields_def zero_pad_def digit_char_def)


end
